theory Spec2Isabelle
  imports Complex_Main "HOL-Library.Word"
begin

section \<open>Console model\<close>

text \<open>
  Standard input is the list of lines \<open>std::getline\<close> will deliver, in order; after the
  last one \<open>std::getline\<close> fails (end of input).  Standard output is the list of items
  inserted with \<open><<\<close>: a piece of text, an integer, or a double.  The type \<open>'d\<close> is
  the carrier of \<open>double\<close> (see the physics section).
\<close>

datatype 'd item = Str string | Num int | Dbl 'd

definition nl :: string where
  "nl = [CHR 0x0A]"

text \<open>
  Both input readers of the program are \<open>while (std::getline(std::cin, line)) { ... }\<close>
  loops that are left either by \<open>break\<close> or because \<open>std::getline\<close> failed, and that
  end in \<open>return variable\<close>.  \<open>Break v rest out\<close>: the loop was left by \<open>break\<close> with
  the variable holding \<open>v\<close>; \<open>rest\<close> is the unread input, \<open>out\<close> what was printed.
  \<open>Eof v out\<close>: the loop was left because the input ended; the function still returns
  its variable, which holds \<open>v\<close> (\<open>None\<close>: the variable was never assigned, its value
  is indeterminate).
\<close>

datatype ('a, 'd) reader =
    Break 'a "string list" "'d item list"
  | Eof "'a option" "'d item list"

section \<open>Machine integers\<close>

text \<open>
  \<open>int\<close> and \<open>unsigned int\<close> are 32-bit words, read with \<open>sint\<close> and \<open>unat\<close>; the
  cast between them keeps the bits.  \<open>long long\<close> values are integers between
  \<open>LLONG_MIN\<close> and \<open>LLONG_MAX\<close>; the only place that could leave this range is the
  extraction from text, which saturates.
\<close>

type_synonym c_int = "32 word"
type_synonym c_uint = "32 word"

definition INT_MIN :: c_int where
  "INT_MIN = word_of_int (- (2 ^ 31))"

definition INT_MAX :: c_int where
  "INT_MAX = word_of_int (2 ^ 31 - 1)"

definition LLONG_MIN :: int where
  "LLONG_MIN = - (2 ^ 63)"

definition LLONG_MAX :: int where
  "LLONG_MAX = 2 ^ 63 - 1"

section \<open>The string stream of the standard library\<close>

text \<open>
  \<open>getint\<close> wraps each line in a \<open>std::stringstream\<close> and extracts from it twice.  The
  stream is library code; it is modelled as ISO C++ (from C++11 on, which the source
  needs for \<open>enum class\<close>) defines it for the classic locale and default format flags:
  \<^item> a formatted extraction first builds a sentry: on a stream that is not good it sets
    \<open>failbit\<close> and extracts nothing; otherwise it skips leading white space, and when
    that reaches the end of the buffer it sets \<open>eofbit\<close> and \<open>failbit\<close> and extracts
    nothing.  The target variable is left as it was;
  \<^item> \<open>operator>>(long long&)\<close> then accumulates an optional sign and decimal digits
    (\<open>eofbit\<close> when it runs into the end of the buffer) and stores: zero with
    \<open>failbit\<close> when there is no digit; the most positive or most negative value with
    \<open>failbit\<close> when the number does not fit; the number otherwise
    ([facet.num.get.virtuals], stage 3);
  \<^item> \<open>operator>>(std::string&)\<close> then takes the characters up to the next white space.
\<close>

record stringstream =
  buf :: string
  failbit :: bool
  eofbit :: bool

definition stringstream_of :: "string \<Rightarrow> stringstream" where
  "stringstream_of line = \<lparr>buf = line, failbit = False, eofbit = False\<rparr>"

definition good :: "stringstream \<Rightarrow> bool" where
  "good s = (\<not> failbit s \<and> \<not> eofbit s)"

definition isspace :: "char \<Rightarrow> bool" where
  "isspace c = (let n = (of_char c :: nat) in n = 32 \<or> (9 \<le> n \<and> n \<le> 13))"

definition isdigit :: "char \<Rightarrow> bool" where
  "isdigit c = (let n = (of_char c :: nat) in 48 \<le> n \<and> n \<le> 57)"

definition digit_value :: "char \<Rightarrow> int" where
  "digit_value c = int (of_char c) - 48"

definition decimal :: "string \<Rightarrow> int" where
  "decimal ds = foldl (\<lambda>n c. 10 * n + digit_value c) 0 ds"

definition extract_long_long :: "stringstream \<Rightarrow> int \<Rightarrow> stringstream \<times> int" where
  "extract_long_long s v =
     (if \<not> good s then (s\<lparr>failbit := True\<rparr>, v)
      else
        let b = dropWhile isspace (buf s) in
        if b = [] then (\<lparr>buf = [], failbit = True, eofbit = True\<rparr>, v)
        else
          let negative = (hd b = CHR ''-'');
              b1 = (if hd b = CHR ''-'' \<or> hd b = CHR ''+'' then tl b else b);
              ds = takeWhile isdigit b1;
              rest = dropWhile isdigit b1;
              n = (if negative then - decimal ds else decimal ds)
          in
            if ds = [] then (\<lparr>buf = rest, failbit = True, eofbit = (rest = [])\<rparr>, 0)
            else if LLONG_MAX < n then
              (\<lparr>buf = rest, failbit = True, eofbit = (rest = [])\<rparr>, LLONG_MAX)
            else if n < LLONG_MIN then
              (\<lparr>buf = rest, failbit = True, eofbit = (rest = [])\<rparr>, LLONG_MIN)
            else (\<lparr>buf = rest, failbit = False, eofbit = (rest = [])\<rparr>, n))"

definition extract_string :: "stringstream \<Rightarrow> string \<Rightarrow> stringstream \<times> string" where
  "extract_string s str =
     (if \<not> good s then (s\<lparr>failbit := True\<rparr>, str)
      else
        let b = dropWhile isspace (buf s) in
        if b = [] then (\<lparr>buf = [], failbit = True, eofbit = True\<rparr>, str)
        else
          let rest = dropWhile (\<lambda>c. \<not> isspace c) b in
          (\<lparr>buf = rest, failbit = False, eofbit = (rest = [])\<rparr>,
           takeWhile (\<lambda>c. \<not> isspace c) b))"

section \<open>Input handling\<close>

subsection \<open>getint\<close>

text \<open>
  One pass of the loop body on \<open>line\<close>: \<open>Some v\<close> when the body reaches \<open>break\<close> with
  \<open>possibleInteger = v\<close>, \<open>None\<close> when it falls through to the two error messages.
  \<open>getint_value\<close> is the value \<open>possibleInteger\<close> holds after the extraction.
\<close>

definition getint_value :: "string \<Rightarrow> int" where
  "getint_value line = snd (extract_long_long (stringstream_of line) LLONG_MIN)"

definition getint_body :: "c_int \<Rightarrow> c_int \<Rightarrow> string \<Rightarrow> int option" where
  "getint_body mn mx line =
     (let possibleInteger = LLONG_MIN;
          input = stringstream_of line;
          (input, possibleInteger) = extract_long_long input possibleInteger
      in
        if possibleInteger \<ge> sint mn \<and> possibleInteger \<le> sint mx then
          (let emptyTest = [];
               (input, emptyTest) = extract_string input emptyTest
           in if emptyTest = [] then Some possibleInteger else None)
        else None)"

definition getint_messages :: "c_int \<Rightarrow> c_int \<Rightarrow> 'd item list" where
  "getint_messages mn mx =
     [Str ''Sorry, the value you inputted was not valid.'', Str nl,
      Str ''Input an integer between '', Num (sint mn), Str '' and '', Num (sint mx),
      Str ('':'' @ nl)]"

text \<open>
  The loop.  \<open>cur\<close> is the content of \<open>possibleInteger\<close> on entry to the loop test
  (\<open>None\<close> before the first assignment).  The final \<open>return possibleInteger\<close> converts
  the \<open>long long\<close> to \<open>int\<close>, keeping the low 32 bits.
\<close>

fun getint_loop ::
  "c_int \<Rightarrow> c_int \<Rightarrow> int option \<Rightarrow> string list \<Rightarrow> 'd item list \<Rightarrow> (c_int, 'd) reader" where
  "getint_loop mn mx cur [] out = Eof (map_option word_of_int cur) out"
| "getint_loop mn mx cur (line # lines) out =
     (case getint_body mn mx line of
        Some v \<Rightarrow> Break (word_of_int v) lines out
      | None \<Rightarrow>
          getint_loop mn mx (Some (getint_value line)) lines (out @ getint_messages mn mx))"

definition getint :: "c_int \<Rightarrow> c_int \<Rightarrow> string list \<Rightarrow> (c_int, 'd) reader" where
  "getint mn mx lines = getint_loop mn mx None lines []"

subsection \<open>icompare\<close>

text \<open>
  \<open>std::tolower\<close> in the classic locale: the 26 upper-case letters go to lower case,
  every other byte (also those above 127) is returned as it is.
\<close>

definition tolower :: "char \<Rightarrow> char" where
  "tolower c =
     (let n = (of_char c :: nat) in if 65 \<le> n \<and> n \<le> 90 then char_of (n + 32) else c)"

text \<open>
  \<open>std::equal(a.begin(), a.end(), b.begin(), pred)\<close>: walks \<open>a\<close>, reading \<open>b\<close> in step.
  The third equation (\<open>b\<close> shorter than \<open>a\<close>) is never reached from \<open>icompare\<close>, which
  compares the lengths first.
\<close>

fun std_equal :: "(char \<Rightarrow> char \<Rightarrow> bool) \<Rightarrow> string \<Rightarrow> string \<Rightarrow> bool" where
  "std_equal p [] b = True"
| "std_equal p (x # a) (y # b) = (p x y \<and> std_equal p a b)"
| "std_equal p (x # a) [] = False"

definition icompare :: "string \<Rightarrow> string \<Rightarrow> bool" where
  "icompare a b =
     (if length a \<noteq> length b then False
      else std_equal (\<lambda>a b. tolower a = tolower b) a b)"

subsection \<open>getBetweenTwoStringSetOptions\<close>

definition choice_messages :: "string \<Rightarrow> 'd item list" where
  "choice_messages message =
     [Str ''Sorry, the value you inputted was not valid.'', Str nl, Str message]"

text \<open>
  \<open>std::find_if\<close> is \<open>find\<close>; an iterator different from \<open>end()\<close> is a result
  different from \<open>None\<close>.  \<open>response\<close> is assigned only on the two paths that break.
\<close>

fun getBetweenTwoStringSetOptions_loop ::
  "string \<Rightarrow> string list \<Rightarrow> string list \<Rightarrow> string list \<Rightarrow> 'd item list \<Rightarrow> (int, 'd) reader" where
  "getBetweenTwoStringSetOptions_loop message firstStringSet secondStringSet [] out =
     Eof None out"
| "getBetweenTwoStringSetOptions_loop message firstStringSet secondStringSet (line # lines) out =
     (let itTrue = find (\<lambda>a. icompare a line) firstStringSet;
          itFalse = find (\<lambda>a. icompare a line) secondStringSet
      in
        if itTrue \<noteq> None then Break 1 lines out
        else if itFalse \<noteq> None then Break (- 1) lines out
        else getBetweenTwoStringSetOptions_loop message firstStringSet secondStringSet lines
               (out @ choice_messages message))"

definition getBetweenTwoStringSetOptions ::
  "string \<Rightarrow> string list \<Rightarrow> string list \<Rightarrow> string list \<Rightarrow> (int, 'd) reader" where
  "getBetweenTwoStringSetOptions message firstStringSet secondStringSet lines =
     getBetweenTwoStringSetOptions_loop message firstStringSet secondStringSet lines []"

subsection \<open>getEnergyType and getBool\<close>

datatype EnergyType = ELECTRON_VOLT | JOULES

definition validEV :: "string list" where
  "validEV =
     [''e'', ''ev'', ''electron volt'', ''electronvolt'', ''electron-volt'',
      ''electron volts'', ''electronvolts'', ''electron-volts'']"

definition validJoules :: "string list" where
  "validJoules = [''j'', ''joule'', ''joules'']"

definition apostrophe :: string where
  "apostrophe = [CHR 0x27]"

definition energy_prompt :: string where
  "energy_prompt =
     ''Electron-volts or joules? ['' @ apostrophe @ ''e'' @ apostrophe @ '', '' @
     apostrophe @ ''J'' @ apostrophe @ '']:'' @ nl"

text \<open>
  When the reader comes back at end of input, \<open>response\<close> is indeterminate and so is
  the outcome of the comparison with 1: the result is \<open>Eof None\<close>.
\<close>

definition getEnergyType :: "string list \<Rightarrow> (EnergyType, 'd) reader" where
  "getEnergyType lines =
     (case getBetweenTwoStringSetOptions energy_prompt validEV validJoules lines of
        Break response rest out \<Rightarrow>
          Break (if response = 1 then ELECTRON_VOLT else JOULES) rest out
      | Eof r out \<Rightarrow> Eof None out)"

definition validTrues :: "string list" where
  "validTrues = [''yes'', ''y'', ''true'', ''1'']"

definition validFalses :: "string list" where
  "validFalses = [''no'', ''n'', ''false'', ''0'']"

definition getBool :: "string list \<Rightarrow> (bool, 'd) reader" where
  "getBool lines =
     (case getBetweenTwoStringSetOptions (''Yay, or nay? [y/n]:'' @ nl)
             validTrues validFalses lines of
        Break response rest out \<Rightarrow> Break (response = 1) rest out
      | Eof r out \<Rightarrow> Eof None out)"

section \<open>Physics\<close>

text \<open>
  The arithmetic of \<open>double\<close> belongs to the platform (the hardware and the C library's
  \<open>pow\<close>), not to the program, so it is a parameter of the model: a carrier \<open>'d\<close> with
  the operations the program applies.  \<open>d_lit q\<close> is the double a decimal literal of
  value \<open>q\<close> denotes (the literals \<open>2.0\<close> and \<open>1.0\<close> have the values 2 and 1),
  \<open>d_of_uint n\<close> the conversion \<open>(double)n\<close> of an \<open>unsigned int\<close>.
\<close>

record 'd double_ops =
  d_lit :: "real \<Rightarrow> 'd"
  d_of_uint :: "nat \<Rightarrow> 'd"
  d_pow :: "'d \<Rightarrow> 'd \<Rightarrow> 'd"
  d_mul :: "'d \<Rightarrow> 'd \<Rightarrow> 'd"
  d_sub :: "'d \<Rightarrow> 'd \<Rightarrow> 'd"
  d_div :: "'d \<Rightarrow> 'd \<Rightarrow> 'd"

definition RYDBERG_CONSTANT :: "'d double_ops \<Rightarrow> 'd" where
  "RYDBERG_CONSTANT A = d_lit A 13.60569300984"

definition EV_TO_JOULES :: "'d double_ops \<Rightarrow> 'd" where
  "EV_TO_JOULES A = d_lit A (1.6 / 10 ^ 19)"

definition calculateBohrEnergy ::
  "'d double_ops \<Rightarrow> c_uint \<Rightarrow> c_uint \<Rightarrow> c_uint \<Rightarrow> EnergyType \<Rightarrow> 'd" where
  "calculateBohrEnergy A Z nInitial nFinal eType =
     (let energy =
        d_mul A
          (d_mul A (RYDBERG_CONSTANT A) (d_pow A (d_of_uint A (unat Z)) (d_lit A 2)))
          (d_sub A
             (d_div A (d_lit A 1) (d_pow A (d_of_uint A (unat nFinal)) (d_lit A 2)))
             (d_div A (d_lit A 1) (d_pow A (d_of_uint A (unat nInitial)) (d_lit A 2))))
      in if eType = JOULES then d_mul A energy (EV_TO_JOULES A) else energy)"

text \<open>Exact arithmetic on the reals: the idealised instance of the operations.\<close>

definition exact :: "real double_ops" where
  "exact =
     \<lparr>d_lit = (\<lambda>q. q), d_of_uint = real, d_pow = (\<lambda>x y. x powr y),
      d_mul = (\<lambda>x y. x * y), d_sub = (\<lambda>x y. x - y), d_div = (\<lambda>x y. x / y)\<rparr>"

text \<open>
  The formula of the specification, \<open>R \<cdot> Z\<^sup>2 \<cdot> (1/nFinal\<^sup>2 - 1/nInitial\<^sup>2)\<close>, evaluated from
  left to right in the arithmetic \<open>A\<close>.
\<close>

definition bohr_formula :: "'d double_ops \<Rightarrow> nat \<Rightarrow> nat \<Rightarrow> nat \<Rightarrow> 'd" where
  "bohr_formula A Z nInitial nFinal =
     (let R = d_lit A 13.60569300984;
          square = (\<lambda>n. d_pow A (d_of_uint A n) (d_lit A 2));
          one_over = (\<lambda>x. d_div A (d_lit A 1) x)
      in d_mul A (d_mul A R (square Z))
           (d_sub A (one_over (square nFinal)) (one_over (square nInitial))))"

text \<open>
  What is assumed of the platform where a property is about the numbers computed: the
  standard model of floating-point arithmetic.  \<open>val x = Some a\<close> says that the double
  \<open>x\<close> is finite and has the value \<open>a\<close>; \<open>u\<close> bounds the relative error of one
  operation.
  \<^item> conversion of a 32-bit unsigned integer is exact, and so are the literals 1 and 2;
  \<^item> a decimal literal, a product, a quotient and a square \<open>pow(x, 2.0)\<close> of a
    non-negative \<open>x\<close> are finite and accurate up to the relative error \<open>u\<close> when the
    exact result is zero or lies in the range of the normal numbers (its magnitude
    between \<open>tiny\<close> and \<open>huge\<close>);
  \<^item> a difference is finite and accurate up to \<open>u\<close> when the exact result does not exceed
    \<open>huge\<close> (a difference of doubles below the normal range is exact).
  IEEE 754 binary64 with round-to-nearest satisfies this with \<open>u = 2\<^sup>-\<^sup>5\<^sup>3\<close> for the
  operations of the hardware; \<open>u = 2\<^sup>-\<^sup>5\<^sup>2\<close> also covers a \<open>pow\<close> that is accurate to one unit
  in the last place.  Nothing is assumed about results that overflow or underflow.
\<close>

definition tiny :: real where "tiny = 1 / 2 ^ 1022"
definition huge :: real where "huge = 2 ^ 1023"

definition normal :: "real \<Rightarrow> bool" where
  "normal x = (tiny \<le> \<bar>x\<bar> \<and> \<bar>x\<bar> \<le> huge)"

definition standard_model :: "'d double_ops \<Rightarrow> ('d \<Rightarrow> real option) \<Rightarrow> real \<Rightarrow> bool" where
  "standard_model A val u =
     ((\<forall>n < 2 ^ 32. val (d_of_uint A n) = Some (real n)) \<and>
      val (d_lit A 1) = Some 1 \<and>
      val (d_lit A 2) = Some 2 \<and>
      (\<forall>q. normal q \<longrightarrow> (\<exists>r. val (d_lit A q) = Some r \<and> \<bar>r - q\<bar> \<le> u * \<bar>q\<bar>)) \<and>
      (\<forall>x y a b. val x = Some a \<longrightarrow> val y = Some b \<longrightarrow> a * b = 0 \<or> normal (a * b) \<longrightarrow>
         (\<exists>r. val (d_mul A x y) = Some r \<and> \<bar>r - a * b\<bar> \<le> u * \<bar>a * b\<bar>)) \<and>
      (\<forall>x y a b. val x = Some a \<longrightarrow> val y = Some b \<longrightarrow> b \<noteq> 0 \<longrightarrow> a = 0 \<or> normal (a / b) \<longrightarrow>
         (\<exists>r. val (d_div A x y) = Some r \<and> \<bar>r - a / b\<bar> \<le> u * \<bar>a / b\<bar>)) \<and>
      (\<forall>x y a b. val x = Some a \<longrightarrow> val y = Some b \<longrightarrow> \<bar>a - b\<bar> \<le> huge \<longrightarrow>
         (\<exists>r. val (d_sub A x y) = Some r \<and> \<bar>r - (a - b)\<bar> \<le> u * \<bar>a - b\<bar>)) \<and>
      (\<forall>x y a. val x = Some a \<longrightarrow> val y = Some 2 \<longrightarrow> 0 \<le> a \<longrightarrow> a = 0 \<or> normal (a\<^sup>2) \<longrightarrow>
         (\<exists>r. val (d_pow A x y) = Some r \<and> \<bar>r - a\<^sup>2\<bar> \<le> u * a\<^sup>2)))"

section \<open>Main program\<close>

text \<open>
  One pass through the body of the \<open>do ... while (shouldContinue)\<close> loop.  It yields
  what was printed, the calls of \<open>calculateBohrEnergy\<close> it made (arguments in the
  order of the parameters) and how control goes on:
  \<^item> \<open>Again rest\<close>: the loop test is reached with \<open>shouldContinue\<close> true (through
    \<open>continue\<close>, or after \<open>getBool\<close> answered true);
  \<^item> \<open>Exit\<close>: the loop test is reached with \<open>shouldContinue\<close> false, main returns 0;
  \<^item> \<open>Input_Ended\<close>: a reader came back because the input ended.  What the program
    does from there depends on indeterminate values and is not modelled.
\<close>

datatype control = Again "string list" | Exit | Input_Ended

type_synonym call = "c_uint \<times> c_uint \<times> c_uint \<times> EnergyType"

definition ask_Z :: string where
  "ask_Z = nl @ ''Please specify a value for the atomic number of the system under consideration.'' @ nl"

definition ask_nInitial :: string where
  "ask_nInitial = nl @ ''Please specify a value for the initial principal quantum number of the electron under consideration.'' @ nl"

definition ask_nFinal :: string where
  "ask_nFinal = nl @ ''Please specify a value for the final principal quantum number of the electron under consideration.'' @ nl"

definition ordering_message :: string where
  "ordering_message = nl @ ''The initial principal quantum number must be greater than the final principal quantum number!'' @ nl"

definition start_again :: string where
  "start_again = ''Let'' @ apostrophe @ ''s start again!'' @ nl"

definition ask_unit :: string where
  "ask_unit = nl @ ''Do you want the results in electron-volts or joules?'' @ nl"

definition ask_continue :: string where
  "ask_continue = nl @ ''Do you wish to continue? [y/n]:'' @ nl"

text \<open>The report; \<open>Dbl\<close> is printed with the precision 3 set just before it.\<close>

definition report :: "c_uint \<Rightarrow> c_uint \<Rightarrow> c_uint \<Rightarrow> EnergyType \<Rightarrow> 'd \<Rightarrow> 'd item list" where
  "report Z nInitial nFinal eType energy =
     [Str (nl @ ''For a (''), Num (uint Z), Str '', '', Num (uint nInitial), Str '', '',
      Num (uint nFinal),
      Str ('') transition the energy was calculated to be: '' @ nl),
      Str ''    E = '', Dbl energy,
      Str (if eType = ELECTRON_VOLT then ''eV'' @ nl else ''J'' @ nl)]"

definition iteration ::
  "'d double_ops \<Rightarrow> string list \<Rightarrow> 'd item list \<times> call list \<times> control" where
  "iteration A lines =
     (case getint 1 INT_MAX lines of
        Eof v o1 \<Rightarrow> (Str ask_Z # o1, [], Input_Ended)
      | Break Z lines1 o1 \<Rightarrow>
      (case getint 1 INT_MAX lines1 of
        Eof v o2 \<Rightarrow> (Str ask_Z # o1 @ Str ask_nInitial # o2, [], Input_Ended)
      | Break nInitial lines2 o2 \<Rightarrow>
      (case getint 1 INT_MAX lines2 of
        Eof v o3 \<Rightarrow>
          (Str ask_Z # o1 @ Str ask_nInitial # o2 @ Str ask_nFinal # o3, [], Input_Ended)
      | Break nFinal lines3 o3 \<Rightarrow>
      (let out3 = Str ask_Z # o1 @ Str ask_nInitial # o2 @ Str ask_nFinal # o3 in
       if unat nInitial < unat nFinal then (out3 @ [Str ordering_message, Str start_again], [], Again lines3)
       else
      (case getEnergyType lines3 of
        Eof v o4 \<Rightarrow> (out3 @ Str ask_unit # o4, [], Input_Ended)
      | Break eType lines4 o4 \<Rightarrow>
      (let energy = calculateBohrEnergy A Z nInitial nFinal eType;
           out4 = out3 @ Str ask_unit # o4 @ report Z nInitial nFinal eType energy @
                  [Str ask_continue]
       in
       case getBool lines4 of
         Eof v o5 \<Rightarrow> (out4 @ o5, [(Z, nInitial, nFinal, eType)], Input_Ended)
       | Break shouldContinue lines5 o5 \<Rightarrow>
           (out4 @ o5, [(Z, nInitial, nFinal, eType)],
            if shouldContinue then Again lines5 else Exit)))))))"

text \<open>Every reader that leaves its loop by \<open>break\<close> has consumed at least one line.\<close>

lemma getint_loop_rest:
  "getint_loop mn mx cur lines out = Break v rest out' \<Longrightarrow> length rest < length lines"
  by (induction lines arbitrary: cur out) (fastforce split: option.splits)+

lemma getint_rest:
  "getint mn mx lines = Break v rest out \<Longrightarrow> length rest < length lines"
  unfolding getint_def by (rule getint_loop_rest)

lemma choice_loop_rest:
  "getBetweenTwoStringSetOptions_loop m A R lines out = Break v rest out' \<Longrightarrow>
     length rest < length lines"
  by (induction lines arbitrary: out) (fastforce simp: Let_def split: if_splits)+

lemma getEnergyType_rest:
  "getEnergyType lines = Break v rest out \<Longrightarrow> length rest < length lines"
  by (auto simp: getEnergyType_def getBetweenTwoStringSetOptions_def
      split: reader.splits dest: choice_loop_rest)

lemma getBool_rest:
  "getBool lines = Break v rest out \<Longrightarrow> length rest < length lines"
  by (auto simp: getBool_def getBetweenTwoStringSetOptions_def
      split: reader.splits dest: choice_loop_rest)

lemma iteration_Again:
  assumes "iteration A lines = (out, cs, Again rest)"
  shows "length rest < length lines"
  using assms
  by (auto simp: iteration_def Let_def split: reader.splits if_splits
      dest!: getint_rest getEnergyType_rest getBool_rest)

text \<open>
  The \<open>do ... while\<close> loop and \<open>main\<close>.  A run yields everything printed, every call
  of \<open>calculateBohrEnergy\<close> in order, and the exit code (\<open>None\<close> when the input ended
  inside a reader, where the model stops).
\<close>

record 'd run =
  printed :: "'d item list"
  called :: "call list"
  returned :: "int option"

function main_loop ::
  "'d double_ops \<Rightarrow> string list \<Rightarrow> 'd item list \<Rightarrow> call list \<Rightarrow> 'd run" where
  "main_loop A lines out calls =
     (case iteration A lines of
        (out1, calls1, Again rest) \<Rightarrow> main_loop A rest (out @ out1) (calls @ calls1)
      | (out1, calls1, Exit) \<Rightarrow>
          \<lparr>printed = out @ out1, called = calls @ calls1, returned = Some 0\<rparr>
      | (out1, calls1, Input_Ended) \<Rightarrow>
          \<lparr>printed = out @ out1, called = calls @ calls1, returned = None\<rparr>)"
  by pat_completeness auto
termination
  by (relation "measure (\<lambda>(A, lines, out, calls). length lines)")
     (auto dest: iteration_Again [OF sym])

declare main_loop.simps [simp del]

definition banner :: string where
  "banner = ''Welcome to Matt'' @ apostrophe @ ''s glorious electron transition energy calculator!'' @ nl"

definition main :: "'d double_ops \<Rightarrow> string list \<Rightarrow> 'd run" where
  "main A lines = main_loop A lines [Str banner] []"

section \<open>Notions of the specification\<close>

text \<open>
  The number at the front of a line: after leading white space, an optional sign and at
  least one decimal digit; with it, the rest of the line.  \<open>None\<close> when the line has no
  such number.
\<close>

definition number_of_line :: "string \<Rightarrow> (int \<times> string) option" where
  "number_of_line line =
     (let b = dropWhile isspace line;
          signed = (b \<noteq> [] \<and> (hd b = CHR ''-'' \<or> hd b = CHR ''+''));
          b1 = (if signed then tl b else b);
          ds = takeWhile isdigit b1
      in if ds = [] then None
         else Some (if b \<noteq> [] \<and> hd b = CHR ''-'' then - decimal ds else decimal ds,
                    dropWhile isdigit b1))"

text \<open>
  The conditions of the specification for accepting a line: (a) a number was extracted,
  (b) it lies in [min, max], (c) only white space follows it.
\<close>

definition accepted_value :: "c_int \<Rightarrow> c_int \<Rightarrow> string \<Rightarrow> int option" where
  "accepted_value mn mx line =
     (case number_of_line line of
        None \<Rightarrow> None
      | Some (v, rest) \<Rightarrow>
          if sint mn \<le> v \<and> v \<le> sint mx \<and> list_all isspace rest then Some v else None)"

text \<open>
  ASCII case folding, as a table: each of the 26 upper-case letters goes to its
  lower-case letter, every other character stays.  Two strings are equal after folding
  when they have the same length and the same folded characters.
\<close>

definition ascii_fold :: "char \<Rightarrow> char" where
  "ascii_fold c =
     (case map_of (zip ''ABCDEFGHIJKLMNOPQRSTUVWXYZ'' ''abcdefghijklmnopqrstuvwxyz'') c of
        Some l \<Rightarrow> l
      | None \<Rightarrow> c)"

definition folded_equal :: "string \<Rightarrow> string \<Rightarrow> bool" where
  "folded_equal a b = (length a = length b \<and> map ascii_fold a = map ascii_fold b)"

text \<open>
  The answer a line stands for, given the two sets: 1 (accept) when it equals a member
  of the first set after folding, otherwise -1 (reject) when it equals a member of the
  second, otherwise none.
\<close>

definition choice_of_line :: "string list \<Rightarrow> string list \<Rightarrow> string \<Rightarrow> int option" where
  "choice_of_line acceptSet rejectSet line =
     (if \<exists>a \<in> set acceptSet. folded_equal a line then Some 1
      else if \<exists>r \<in> set rejectSet. folded_equal r line then Some (- 1)
      else None)"

text \<open>The energy unit a line stands for: the synonyms as the specification lists them.\<close>

definition unit_of_line :: "string \<Rightarrow> EnergyType option" where
  "unit_of_line line =
     (if map ascii_fold line \<in>
           {''e'', ''ev'', ''electron volt'', ''electronvolt'', ''electron-volt'',
            ''electron volts'', ''electronvolts'', ''electron-volts''}
      then Some ELECTRON_VOLT
      else if map ascii_fold line \<in> {''j'', ''joule'', ''joules''} then Some JOULES
      else None)"

text \<open>A reader's result, with \<open>pre\<close> printed before everything the reader printed.\<close>

fun prepend_output :: "'d item list \<Rightarrow> ('a, 'd) reader \<Rightarrow> ('a, 'd) reader" where
  "prepend_output pre (Break v rest out) = Break v rest (pre @ out)"
| "prepend_output pre (Eof v out) = Eof v (pre @ out)"

text \<open>
  A value of type \<open>unsigned int\<close> that is at least 1 and that reads the same as an
  \<open>int\<close>: the cast from \<open>int\<close> did not change it.
\<close>

definition positive_int :: "c_uint \<Rightarrow> bool" where
  "positive_int n = (1 \<le> unat n \<and> int (unat n) = sint n \<and> sint n \<le> sint INT_MAX)"

definition valid_call :: "call \<Rightarrow> bool" where
  "valid_call c =
     (case c of (Z, nInitial, nFinal, eType) \<Rightarrow>
        positive_int Z \<and> positive_int nInitial \<and> positive_int nFinal)"

section \<open>The numeric input reader\<close>

lemmas stream_defs =
  getint_def getint_body_def getint_value_def extract_long_long_def extract_string_def
  stringstream_of_def good_def isspace_def isdigit_def decimal_def digit_value_def
  INT_MIN_def INT_MAX_def LLONG_MIN_def LLONG_MAX_def Let_def

text \<open>The examples of the specification, with the range [1, 10].\<close>

lemma getint_spec_examples:
  "getint 1 10 [''5''] = (Break 5 [] [] :: (c_int, 'd) reader)"
  "getint 1 10 [''abc'', ''15'', ''7abc'', ''7''] =
     (Break 7 [] (getint_messages 1 10 @ getint_messages 1 10 @ getint_messages 1 10)
        :: (c_int, 'd) reader)"
  by (simp_all add: stream_defs)

text \<open>
  What one pass of the loop does with a line, in the terms of the specification: a line
  with a number is accepted exactly under the three conditions; a line without a number
  is accepted, with the value 0, when it is not blank and 0 lies in the range.
\<close>

lemma takeWhile_not_space_dropWhile:
  "(takeWhile (\<lambda>c. \<not> isspace c) (dropWhile isspace r) = []) = list_all isspace r"
  by (induction r) simp_all

lemma dropWhile_space_Nil: "(dropWhile isspace r = []) = list_all isspace r"
  by (induction r) simp_all

lemma int_bounds: "sint (w :: c_int) < LLONG_MAX \<and> LLONG_MIN < sint w"
  using sint_lt [of w] sint_ge [of w] by (simp add: LLONG_MAX_def LLONG_MIN_def)

lemma extract_string_empty:
  "(snd (extract_string s []) = []) = (\<not> good s \<or> list_all isspace (buf s))"
  by (auto simp: extract_string_def Let_def takeWhile_not_space_dropWhile list_all_iff)

lemma getint_body_characterisation:
  "getint_body mn mx line =
     (case number_of_line line of
        Some (v, rest) \<Rightarrow> accepted_value mn mx line
      | None \<Rightarrow>
          if \<not> list_all isspace line \<and> sint mn \<le> 0 \<and> 0 \<le> sint mx then Some 0
          else None)"
proof -
  define b where "b = dropWhile isspace line"
  have bl: "list_all isspace line = (b = [])"
    unfolding b_def by (rule dropWhile_space_Nil [symmetric])
  define b1 where "b1 = (if hd b = CHR ''-'' \<or> hd b = CHR ''+'' then tl b else b)"
  define ds where "ds = takeWhile isdigit b1"
  define rest where "rest = dropWhile isdigit b1"
  define n where "n = (if hd b = CHR ''-'' then - decimal ds else decimal ds)"
  define s where "s = fst (extract_long_long (stringstream_of line) LLONG_MIN)"
  define v where "v = snd (extract_long_long (stringstream_of line) LLONG_MIN)"
  have ex: "extract_long_long (stringstream_of line) LLONG_MIN =
      (if b = [] then (\<lparr>buf = [], failbit = True, eofbit = True\<rparr>, LLONG_MIN)
       else if ds = [] then (\<lparr>buf = rest, failbit = True, eofbit = (rest = [])\<rparr>, 0)
       else if LLONG_MAX < n then
         (\<lparr>buf = rest, failbit = True, eofbit = (rest = [])\<rparr>, LLONG_MAX)
       else if n < LLONG_MIN then
         (\<lparr>buf = rest, failbit = True, eofbit = (rest = [])\<rparr>, LLONG_MIN)
       else (\<lparr>buf = rest, failbit = False, eofbit = (rest = [])\<rparr>, n))"
    unfolding extract_long_long_def stringstream_of_def good_def Let_def
      b_def b1_def ds_def rest_def n_def
    by simp
  have num: "number_of_line line = (if b = [] \<or> ds = [] then None else Some (n, rest))"
  proof (cases "b = []")
    case True
    then show ?thesis
      unfolding number_of_line_def Let_def b_def [symmetric] by simp
  next
    case False
    then show ?thesis
      unfolding number_of_line_def Let_def b_def [symmetric]
      by (simp add: b1_def ds_def rest_def n_def)
  qed
  have body: "getint_body mn mx line =
      (if sint mn \<le> v \<and> v \<le> sint mx
       then (if snd (extract_string s []) = [] then Some v else None) else None)"
    by (simp add: getint_body_def s_def v_def Let_def split: prod.splits)
  note bounds = int_bounds [of mx] int_bounds [of mn]
  consider "b = []" | "b \<noteq> []" "ds = []" | "b \<noteq> []" "ds \<noteq> []" "LLONG_MAX < n"
    | "b \<noteq> []" "ds \<noteq> []" "n < LLONG_MIN"
    | "b \<noteq> []" "ds \<noteq> []" "LLONG_MIN \<le> n" "n \<le> LLONG_MAX"
    by linarith
  then show ?thesis
  proof cases
    case 1
    then have "v = LLONG_MIN" by (simp add: v_def ex)
    with 1 bounds show ?thesis by (simp add: body num bl)
  next
    case 2
    then have "v = 0" "\<not> good s" by (simp_all add: v_def s_def ex good_def)
    with 2 show ?thesis by (simp add: body num extract_string_empty bl)
  next
    case 3
    then have "v = LLONG_MAX" by (simp add: v_def ex)
    with 3 bounds show ?thesis by (simp add: body num accepted_value_def)
  next
    case 4
    then have "\<not> LLONG_MAX < n" by (simp add: LLONG_MIN_def LLONG_MAX_def)
    with 4 have "v = LLONG_MIN" by (simp add: v_def ex)
    with 4 bounds show ?thesis by (simp add: body num accepted_value_def)
  next
    case 5
    then have "v = n" "good s = (rest \<noteq> [])" "buf s = rest"
      by (simp_all add: v_def s_def ex good_def)
    with 5 show ?thesis by (auto simp: body num accepted_value_def extract_string_empty)
  qed
qed

lemma getint_body_accepted_value:
  "\<not> (sint mn \<le> 0 \<and> 0 \<le> sint mx) \<Longrightarrow> getint_body mn mx line = accepted_value mn mx line"
  by (simp add: getint_body_characterisation accepted_value_def split: option.splits)

text \<open>
  C3.  The specification: the reader accepts a line exactly when a number was extracted
  from it, the number lies in [min, max], and nothing but white space follows it; in
  particular a line without a digit, such as "abc", is rejected for every range.

  The code does not do that.  On a line without a digit the extraction stores 0 and
  sets \<open>failbit\<close>; the range test then sees 0, and the second extraction, on a failed
  stream, leaves \<open>emptyTest\<close> empty.  With the default range of \<open>getint\<close> the line
  "abc" is accepted and 0 is returned; so is "hello world" with the range [-5, 5].
\<close>

theorem getint_accepts_line_without_digits:
  "getint INT_MIN INT_MAX [''abc''] = (Break 0 [] [] :: (c_int, 'd) reader) \<and>
   getint (- 5) 5 [''hello world''] = (Break 0 [] [] :: (c_int, 'd) reader)"
  by (simp add: stream_defs)

text \<open>On input without an acceptable line the reader leaves its loop at end of input.\<close>

lemma getint_loop_invalid_lines:
  "list_all (\<lambda>line. getint_body mn mx line = None) lines \<Longrightarrow>
     \<exists>v out'. getint_loop mn mx cur lines out = Eof v out'"
  by (induction lines arbitrary: cur out) simp_all

text \<open>
  C8.  The specification: when the input ends before a valid line was read, the reader
  blocks for ever and returns nothing to its caller.

  The code returns.  At end of input \<open>std::getline\<close> fails, the loop test is false and
  control reaches \<open>return possibleInteger\<close>: with nothing read the variable was never
  assigned; after the rejected line "abc" it holds 0, which \<open>getint(1)\<close> hands to its
  caller although 0 is below the minimum.
\<close>

theorem getint_returns_at_end_of_input:
  "getint 1 INT_MAX [] = (Eof None [] :: (c_int, 'd) reader) \<and>
   getint 1 INT_MAX [''abc''] =
     (Eof (Some 0) (getint_messages 1 INT_MAX) :: (c_int, 'd) reader)"
  by (simp add: stream_defs)

section \<open>The choice reader\<close>

text \<open>\<open>tolower\<close> in the classic locale is ASCII case folding.\<close>

lemma tolower_ascii_fold: "tolower c = ascii_fold c"
proof (cases c)
  case (Char b0 b1 b2 b3 b4 b5 b6 b7)
  show ?thesis
    unfolding Char tolower_def ascii_fold_def Let_def
    by (cases b0; cases b1; cases b2; cases b3; cases b4; cases b5; cases b6; cases b7)
       (simp_all add: char_of_def bit_Suc_0_iff)
qed

lemma std_equal_list_all2:
  "length a = length b \<Longrightarrow> std_equal p a b = list_all2 p a b"
  by (induction a b rule: list_induct2) simp_all

lemma icompare_folded_equal: "icompare a b = folded_equal a b"
proof (cases "length a = length b")
  case True
  then have "std_equal (\<lambda>x y. tolower x = tolower y) a b = (map tolower a = map tolower b)"
    by (simp add: std_equal_list_all2 list_all2_conv_all_nth list_eq_iff_nth_eq)
  with True show ?thesis
    by (simp add: icompare_def folded_equal_def tolower_ascii_fold [abs_def])
next
  case False
  then show ?thesis by (simp add: icompare_def folded_equal_def)
qed


text \<open>The output printed so far is only carried along by the loop.\<close>

lemma prepend_output_append:
  "prepend_output a (prepend_output b r) = prepend_output (a @ b) r"
  by (cases r) simp_all

lemma choice_loop_out:
  "getBetweenTwoStringSetOptions_loop m A R lines out =
     prepend_output out (getBetweenTwoStringSetOptions_loop m A R lines [])"
proof (induction lines arbitrary: out)
  case Nil
  show ?case by simp
next
  case (Cons line lines)
  have "prepend_output out (getBetweenTwoStringSetOptions_loop m A R lines (choice_messages m)) =
        getBetweenTwoStringSetOptions_loop m A R lines (out @ choice_messages m)"
    by (subst Cons.IH [of "choice_messages m"], subst Cons.IH [of "out @ choice_messages m"])
       (rule prepend_output_append)
  then show ?case by (simp add: Let_def)
qed

lemma find_icompare:
  "(find (\<lambda>a. icompare a line) S \<noteq> None) = (\<exists>a \<in> set S. folded_equal a line)"
  by (auto simp: find_None_iff icompare_folded_equal)


text \<open>One pass of the loop, in the terms of the specification.\<close>

lemma getBetweenTwoStringSetOptions_Cons:
  "getBetweenTwoStringSetOptions message acceptSet rejectSet (line # lines) =
     (case choice_of_line acceptSet rejectSet line of
        Some response \<Rightarrow> (Break response lines [] :: (int, 'd) reader)
      | None \<Rightarrow>
          prepend_output (choice_messages message)
            (getBetweenTwoStringSetOptions message acceptSet rejectSet lines))"
proof -
  have "getBetweenTwoStringSetOptions_loop message acceptSet rejectSet lines
          (choice_messages message) =
        prepend_output (choice_messages message :: 'd item list)
          (getBetweenTwoStringSetOptions_loop message acceptSet rejectSet lines [])"
    by (rule choice_loop_out)
  then show ?thesis
    unfolding getBetweenTwoStringSetOptions_def choice_of_line_def
    by (simp add: Let_def find_icompare del: not_None_eq)
qed

text \<open>
  C6.  On every line, for every two sets: the reader compares the line with the members
  of the sets after ASCII case folding, by length and then character by character.  It
  returns 1 (accept) when the line then equals a member of the first set, -1 (reject)
  when it equals a member of the second set (the first set is looked at first), and
  otherwise prints the message and the prompt and goes on with the next line.
\<close>

theorem choice_reader_step:
  "getBetweenTwoStringSetOptions message acceptSet rejectSet (line # lines) =
     (case choice_of_line acceptSet rejectSet line of
        Some response \<Rightarrow> (Break response lines [] :: (int, 'd) reader)
      | None \<Rightarrow>
          prepend_output (choice_messages message)
            (getBetweenTwoStringSetOptions message acceptSet rejectSet lines)) \<and>
   icompare a b = (length a = length b \<and> map ascii_fold a = map ascii_fold b)"
proof
  show "getBetweenTwoStringSetOptions message acceptSet rejectSet (line # lines) =
     (case choice_of_line acceptSet rejectSet line of
        Some response \<Rightarrow> (Break response lines [] :: (int, 'd) reader)
      | None \<Rightarrow>
          prepend_output (choice_messages message)
            (getBetweenTwoStringSetOptions message acceptSet rejectSet lines))"
    by (rule getBetweenTwoStringSetOptions_Cons)
  show "icompare a b = (length a = length b \<and> map ascii_fold a = map ascii_fold b)"
    unfolding icompare_folded_equal by (rule folded_equal_def)
qed

text \<open>
  The examples of the specification: with the sets {y, yes} and {n, no}, "YES" is
  accepted; "maybe" prints the prompt again and the next line is read.
\<close>

theorem choice_reader_step_witness:
  "choice_of_line [''y'', ''yes''] [''n'', ''no''] ''YES'' = Some 1 \<and>
   getBetweenTwoStringSetOptions ''p'' [''y'', ''yes''] [''n'', ''no''] [''YES''] =
     (Break 1 [] [] :: (int, real) reader) \<and>
   choice_of_line [''y'', ''yes''] [''n'', ''no''] ''maybe'' = None \<and>
   getBetweenTwoStringSetOptions ''p'' [''y'', ''yes''] [''n'', ''no''] [''maybe'', ''No''] =
     (Break (- 1) [] (choice_messages ''p'') :: (int, real) reader)"
proof -
  have 1: "choice_of_line [''y'', ''yes''] [''n'', ''no''] ''YES'' = Some 1"
    by code_simp
  have 2: "choice_of_line [''y'', ''yes''] [''n'', ''no''] ''maybe'' = None"
    by code_simp
  have 3: "choice_of_line [''y'', ''yes''] [''n'', ''no''] ''No'' = Some (- 1)"
    by code_simp
  show ?thesis
    using
      conjunct1 [OF choice_reader_step [where 'd = real,
        of "''p''" "[''y'', ''yes'']" "[''n'', ''no'']" "''YES''" "[]"]]
      conjunct1 [OF choice_reader_step [where 'd = real,
        of "''p''" "[''y'', ''yes'']" "[''n'', ''no'']" "''maybe''" "[''No'']"]]
      conjunct1 [OF choice_reader_step [where 'd = real,
        of "''p''" "[''y'', ''yes'']" "[''n'', ''no'']" "''No''" "[]"]]
    by (simp add: 1 2 3)
qed

section \<open>The energy-unit adapter\<close>

text \<open>The members of both sets are in lower case, so folding the line is enough.\<close>

lemma folded_equal_lower:
  "map ascii_fold a = a \<Longrightarrow> folded_equal a line = (map ascii_fold line = a)"
  unfolding folded_equal_def by (metis length_map)

lemma validEV_lower: "\<forall>a \<in> set validEV. map ascii_fold a = a"
  unfolding validEV_def by code_simp

lemma validJoules_lower: "\<forall>a \<in> set validJoules. map ascii_fold a = a"
  unfolding validJoules_def by code_simp

lemma choice_of_line_energy:
  "choice_of_line validEV validJoules line =
     map_option (\<lambda>u. if u = ELECTRON_VOLT then 1 else - 1) (unit_of_line line)"
proof -
  have ev: "(\<exists>a \<in> set validEV. folded_equal a line) = (map ascii_fold line \<in> set validEV)"
    using validEV_lower by (auto simp: folded_equal_lower)
  have j: "(\<exists>a \<in> set validJoules. folded_equal a line) = (map ascii_fold line \<in> set validJoules)"
    using validJoules_lower by (auto simp: folded_equal_lower)
  show ?thesis
    unfolding choice_of_line_def ev j unit_of_line_def
    by (simp add: validEV_def validJoules_def)
qed


text \<open>
  C7.  \<open>getEnergyType\<close> returns \<open>ELECTRON_VOLT\<close> exactly when the line it accepts
  equals, after case folding, one of the eight synonyms e, ev, electron volt,
  electronvolt, electron-volt, electron volts, electronvolts, electron-volts; it returns
  \<open>JOULES\<close> exactly when the line equals one of j, joule, joules; on every other line it
  prints the prompt again and reads the next line.
\<close>

theorem getEnergyType_step:
  "getEnergyType (line # lines) =
     (case unit_of_line line of
        Some u \<Rightarrow> (Break u lines [] :: (EnergyType, 'd) reader)
      | None \<Rightarrow> prepend_output (choice_messages energy_prompt) (getEnergyType lines)) \<and>
   (unit_of_line line = Some ELECTRON_VOLT) =
     (map ascii_fold line \<in>
        {''e'', ''ev'', ''electron volt'', ''electronvolt'', ''electron-volt'',
         ''electron volts'', ''electronvolts'', ''electron-volts''}) \<and>
   (unit_of_line line = Some JOULES) =
     (map ascii_fold line \<in> {''j'', ''joule'', ''joules''})"
proof (intro conjI)
  show "getEnergyType (line # lines) =
     (case unit_of_line line of
        Some u \<Rightarrow> (Break u lines [] :: (EnergyType, 'd) reader)
      | None \<Rightarrow> prepend_output (choice_messages energy_prompt) (getEnergyType lines))"
  proof (cases "unit_of_line line")
    case None
    then show ?thesis
      unfolding getEnergyType_def
      by (cases "getBetweenTwoStringSetOptions energy_prompt validEV validJoules lines
                   :: (int, 'd) reader")
         (simp_all add: getBetweenTwoStringSetOptions_Cons choice_of_line_energy)
  next
    case (Some u)
    then show ?thesis
      unfolding getEnergyType_def
      by (cases u) (simp_all add: getBetweenTwoStringSetOptions_Cons choice_of_line_energy)
  qed
  show "(unit_of_line line = Some ELECTRON_VOLT) =
     (map ascii_fold line \<in>
        {''e'', ''ev'', ''electron volt'', ''electronvolt'', ''electron-volt'',
         ''electron volts'', ''electronvolts'', ''electron-volts''})"
    by (simp add: unit_of_line_def)
  show "(unit_of_line line = Some JOULES) =
     (map ascii_fold line \<in> {''j'', ''joule'', ''joules''})"
    by (auto simp: unit_of_line_def)
qed

theorem getEnergyType_step_witness:
  "getEnergyType [''eV''] = (Break ELECTRON_VOLT [] [] :: (EnergyType, real) reader) \<and>
   getEnergyType [''Electron-Volts'', ''x''] =
     (Break ELECTRON_VOLT [''x''] [] :: (EnergyType, real) reader) \<and>
   getEnergyType [''kcal'', ''Joules''] =
     (Break JOULES [] (choice_messages energy_prompt) :: (EnergyType, real) reader)"
proof -
  have 1: "unit_of_line ''eV'' = Some ELECTRON_VOLT"
    by code_simp
  have 2: "unit_of_line ''Electron-Volts'' = Some ELECTRON_VOLT"
    by code_simp
  have 3: "unit_of_line ''kcal'' = None"
    by code_simp
  have 4: "unit_of_line ''Joules'' = Some JOULES"
    by code_simp
  show ?thesis
    using
      getEnergyType_step [where 'd = real, of "''eV''" "[]"]
      getEnergyType_step [where 'd = real, of "''Electron-Volts''" "[''x'']"]
      getEnergyType_step [where 'd = real, of "''kcal''" "[''Joules'']"]
      getEnergyType_step [where 'd = real, of "''Joules''" "[]"]
    by (simp add: 1 2 3 4)
qed

section \<open>The interaction loop\<close>

text \<open>What \<open>getint\<close> returns by \<open>break\<close> lies in the range it was given.\<close>

lemma getint_body_range:
  "getint_body mn mx line = Some v \<Longrightarrow> sint mn \<le> v \<and> v \<le> sint mx"
  by (auto simp: getint_body_def Let_def split: prod.splits if_splits)

lemma sint_word_of_int_between:
  fixes mn mx :: c_int
  assumes "sint mn \<le> v" "v \<le> sint mx"
  shows "sint (word_of_int v :: c_int) = v"
proof -
  have "- (2 ^ 31) \<le> sint mn" "sint mx < 2 ^ 31"
    using sint_ge [of mn] sint_lt [of mx] by simp_all
  with assms have "- (2 ^ 31) \<le> v" "v < 2 ^ 31" by linarith+
  then show ?thesis by (simp add: sint_sbintrunc' signed_take_bit_int_eq_self)
qed

lemma getint_loop_range:
  "getint_loop mn mx cur lines out = Break v rest out' \<Longrightarrow>
     sint mn \<le> sint v \<and> sint v \<le> sint mx"
proof (induction lines arbitrary: cur out)
  case Nil
  then show ?case by simp
next
  case (Cons line lines)
  show ?case
  proof (cases "getint_body mn mx line")
    case None
    with Cons show ?thesis by simp
  next
    case (Some w)
    with Cons.prems have v: "v = word_of_int w" by simp
    from Some have "sint mn \<le> w" "w \<le> sint mx" by (simp_all add: getint_body_range)
    then show ?thesis unfolding v by (simp add: sint_word_of_int_between)
  qed
qed

lemma getint_range:
  "getint mn mx lines = Break v rest out \<Longrightarrow> sint mn \<le> sint v \<and> sint v \<le> sint mx"
  unfolding getint_def by (rule getint_loop_range)

lemma getint_1_positive:
  assumes "getint 1 INT_MAX lines = Break v rest out"
  shows "positive_int v"
proof -
  from getint_range [OF assms] have 1: "1 \<le> sint v" and 2: "sint v \<le> sint INT_MAX" by simp_all
  have "sint v < 2 ^ 32" using sint_lt [of v] by simp
  with 1 have "uint v = sint v"
    by (simp add: uint_sint [of v] take_bit_int_eq_self)
  moreover have "int (unat v) = uint v" by simp
  ultimately show ?thesis using 1 2 unfolding positive_int_def by linarith
qed

lemma iteration_calls:
  assumes "iteration A lines = (out, cs, ctl)"
  shows "list_all valid_call cs"
  using assms
  by (auto simp: iteration_def Let_def valid_call_def split: reader.splits if_splits
      dest: getint_1_positive)

lemma main_loop_calls:
  "list_all valid_call calls \<Longrightarrow> list_all valid_call (called (main_loop A lines out calls))"
proof (induction A lines out calls rule: main_loop.induct)
  case (1 A lines out calls)
  obtain out1 calls1 ctl where it: "iteration A lines = (out1, calls1, ctl)"
    by (cases "iteration A lines") blast
  then have c1: "list_all valid_call calls1" by (rule iteration_calls)
  show ?case
  proof (cases ctl)
    case (Again rest)
    with it have "main_loop A lines out calls = main_loop A rest (out @ out1) (calls @ calls1)"
      by (subst main_loop.simps) simp
    moreover have "list_all valid_call (called (main_loop A rest (out @ out1) (calls @ calls1)))"
      using "1.IH" [OF it [symmetric] refl Again] "1.prems" c1 by simp
    ultimately show ?thesis by simp
  next
    case Exit
    with it "1.prems" c1 show ?thesis by (subst main_loop.simps) simp
  next
    case Input_Ended
    with it "1.prems" c1 show ?thesis by (subst main_loop.simps) simp
  qed
qed


text \<open>
  C10.  Every call of \<open>calculateBohrEnergy\<close> that a run makes gets Z, nInitial and nFinal
  that are at least 1: each comes from \<open>getint\<close> with the bounds 1 and \<open>INT_MAX\<close>, so
  the cast to \<open>unsigned int\<close> leaves the value as it is.  (Calls are made only in
  passes where all three readers returned by \<open>break\<close>, that is, received a valid line.)
\<close>

theorem main_calls_positive:
  assumes "(Z, nInitial, nFinal, eType) \<in> set (called (main A lines))"
  shows "positive_int Z \<and> positive_int nInitial \<and> positive_int nFinal"
proof -
  have "list_all valid_call (called (main A lines))"
    unfolding main_def by (rule main_loop_calls) simp
  with assms show ?thesis by (auto simp: list_all_iff valid_call_def)
qed

theorem main_calls_positive_witness:
  "(3, 2, 1, JOULES) \<in> set (called (main exact [''3'', ''2'', ''1'', ''j'', ''n''])) \<and>
   positive_int 3 \<and> positive_int 2 \<and> positive_int 1"
proof -
  have c: "called (main exact [''3'', ''2'', ''1'', ''j'', ''n'']) = [(3, 2, 1, JOULES)]"
    by code_simp
  then have "(3, 2, 1, JOULES) \<in> set (called (main exact [''3'', ''2'', ''1'', ''j'', ''n'']))"
    by simp
  from this main_calls_positive [OF this] show ?thesis by simp
qed

text \<open>
  C2.  The specification: before the energy is computed the initial level is strictly
  above the final level; three collected integers that violate this restart the pass
  and \<open>calculateBohrEnergy\<close> is not called with them.

  The code tests \<open>nInitial < nFinal\<close> only.  With the input 1, 2, 2 the levels are equal,
  the test is false, and the run goes on to the unit question and calls
  \<open>calculateBohrEnergy(1, 2, 2, ELECTRON_VOLT)\<close>.
\<close>

theorem main_computes_equal_levels:
  "called (main A [''1'', ''2'', ''2'', ''e'', ''n'']) = [(1, 2, 2, ELECTRON_VOLT)] \<and>
   returned (main A [''1'', ''2'', ''2'', ''e'', ''n'']) = Some 0"
  by code_simp

text \<open>What the test does ensure: a violation restarts the pass, and no call has
  \<open>nInitial < nFinal\<close>.\<close>

lemma iteration_restart:
  assumes "getint 1 INT_MAX lines = Break Z lines1 o1"
    and "getint 1 INT_MAX lines1 = Break nInitial lines2 o2"
    and "getint 1 INT_MAX lines2 = Break nFinal lines3 o3"
    and "unat nInitial < unat nFinal"
  shows "iteration A lines =
     (Str ask_Z # o1 @ Str ask_nInitial # o2 @ Str ask_nFinal # o3 @
        [Str ordering_message, Str start_again], [], Again lines3)"
  using assms by (simp add: iteration_def)

section \<open>The Bohr energy function\<close>

text \<open>
  C1.  For every unit and all Z, nInitial, nFinal, \<open>calculateBohrEnergy\<close> returns
  \<open>R \<cdot> Z\<^sup>2 \<cdot> (1/nFinal\<^sup>2 - 1/nInitial\<^sup>2)\<close> with R = 13.60569300984 for electron-volts, and
  that value times 1.6e-19 for joules: in whatever arithmetic the doubles have, the
  function evaluates the formula operation by operation; and in exact arithmetic, with
  nonzero levels, the formula is the real number it denotes.
\<close>

theorem calculateBohrEnergy_formula:
  "calculateBohrEnergy A Z nInitial nFinal ELECTRON_VOLT =
     bohr_formula A (unat Z) (unat nInitial) (unat nFinal) \<and>
   calculateBohrEnergy A Z nInitial nFinal JOULES =
     d_mul A (bohr_formula A (unat Z) (unat nInitial) (unat nFinal)) (d_lit A (1.6 / 10 ^ 19)) \<and>
   (0 < k \<and> 0 < n \<longrightarrow>
      bohr_formula exact z k n =
        13.60569300984 * (real z)\<^sup>2 * (1 / (real n)\<^sup>2 - 1 / (real k)\<^sup>2))"
proof (intro conjI impI)
  show "calculateBohrEnergy A Z nInitial nFinal ELECTRON_VOLT =
     bohr_formula A (unat Z) (unat nInitial) (unat nFinal)"
    by (simp add: calculateBohrEnergy_def bohr_formula_def RYDBERG_CONSTANT_def Let_def)
  show "calculateBohrEnergy A Z nInitial nFinal JOULES =
     d_mul A (bohr_formula A (unat Z) (unat nInitial) (unat nFinal)) (d_lit A (1.6 / 10 ^ 19))"
    by (simp add: calculateBohrEnergy_def bohr_formula_def RYDBERG_CONSTANT_def
        EV_TO_JOULES_def Let_def)
  show "bohr_formula exact z k n =
        13.60569300984 * (real z)\<^sup>2 * (1 / (real n)\<^sup>2 - 1 / (real k)\<^sup>2)"
    by (simp add: bohr_formula_def exact_def powr_numeral Let_def)
qed

text \<open>Z = 1, from level 2 to level 1: 13.60569300984 \<cdot> 3/4 = 10.20426975738 eV.\<close>

theorem calculateBohrEnergy_formula_witness:
  "calculateBohrEnergy exact 1 2 1 ELECTRON_VOLT = 10.20426975738 \<and>
   calculateBohrEnergy exact 1 2 1 JOULES = 10.20426975738 * (1.6 / 10 ^ 19)"
  using calculateBohrEnergy_formula [of exact 1 2 1 2 1 1]
  by (simp add: exact_def)

text \<open>
  C4.  The result in joules is the result in electron-volts multiplied once by the
  constant 1.6e-19, with the multiplication of the doubles; this holds in every
  arithmetic.
\<close>

theorem joules_is_electron_volts_times_constant:
  "calculateBohrEnergy A Z nInitial nFinal JOULES =
     d_mul A (calculateBohrEnergy A Z nInitial nFinal ELECTRON_VOLT) (EV_TO_JOULES A) \<and>
   EV_TO_JOULES A = d_lit A (1.6 / 10 ^ 19)"
  by (simp add: calculateBohrEnergy_def EV_TO_JOULES_def)

text \<open>Z = 2, from level 3 to level 1: 48.37579736832 eV, times 1.6e-19 in joules.\<close>

theorem joules_is_electron_volts_times_constant_witness:
  "calculateBohrEnergy exact 2 3 1 ELECTRON_VOLT = 48.37579736832 \<and>
   calculateBohrEnergy exact 2 3 1 JOULES = 48.37579736832 * (1.6 / 10 ^ 19)"
proof -
  have "calculateBohrEnergy exact 2 3 1 ELECTRON_VOLT = 48.37579736832"
    by (simp add: calculateBohrEnergy_def RYDBERG_CONSTANT_def exact_def powr_numeral)
  with joules_is_electron_volts_times_constant [of exact 2 3 1] show ?thesis
    by (simp add: exact_def EV_TO_JOULES_def)
qed

subsection \<open>Numbers computed under the standard model\<close>

lemma tiny_le: "tiny \<le> 1 / 2 ^ 200"
proof -
  have "(2::real) ^ 200 \<le> 2 ^ 1022" by (rule power_increasing) simp_all
  then show ?thesis unfolding tiny_def by (simp add: frac_le del: power_increasing_iff)
qed

lemma huge_ge: "2 ^ 200 \<le> huge"
  unfolding huge_def by (rule power_increasing) simp_all

lemma normalI: "1 / 2 ^ 200 \<le> x \<Longrightarrow> x \<le> 2 ^ 200 \<Longrightarrow> normal x"
  unfolding normal_def using tiny_le huge_ge by simp

lemma exact_standard_model: "standard_model exact Some 0"
  unfolding standard_model_def exact_def by (simp add: powr_numeral)

lemma model_of_uint:
  "standard_model A val u \<Longrightarrow> n < 2 ^ 32 \<Longrightarrow> val (d_of_uint A n) = Some (real n)"
  unfolding standard_model_def by blast

lemma model_one: "standard_model A val u \<Longrightarrow> val (d_lit A 1) = Some 1"
  unfolding standard_model_def by blast

lemma model_two: "standard_model A val u \<Longrightarrow> val (d_lit A 2) = Some 2"
  unfolding standard_model_def by blast

lemma model_lit:
  "standard_model A val u \<Longrightarrow> normal q \<Longrightarrow>
     \<exists>r. val (d_lit A q) = Some r \<and> \<bar>r - q\<bar> \<le> u * \<bar>q\<bar>"
  unfolding standard_model_def by blast

lemma model_mul:
  "standard_model A val u \<Longrightarrow> val x = Some a \<Longrightarrow> val y = Some b \<Longrightarrow>
     a * b = 0 \<or> normal (a * b) \<Longrightarrow>
     \<exists>r. val (d_mul A x y) = Some r \<and> \<bar>r - a * b\<bar> \<le> u * \<bar>a * b\<bar>"
  unfolding standard_model_def by blast

lemma model_div:
  "standard_model A val u \<Longrightarrow> val x = Some a \<Longrightarrow> val y = Some b \<Longrightarrow> b \<noteq> 0 \<Longrightarrow>
     a = 0 \<or> normal (a / b) \<Longrightarrow>
     \<exists>r. val (d_div A x y) = Some r \<and> \<bar>r - a / b\<bar> \<le> u * \<bar>a / b\<bar>"
  unfolding standard_model_def by blast

lemma model_sub:
  "standard_model A val u \<Longrightarrow> val x = Some a \<Longrightarrow> val y = Some b \<Longrightarrow> \<bar>a - b\<bar> \<le> huge \<Longrightarrow>
     \<exists>r. val (d_sub A x y) = Some r \<and> \<bar>r - (a - b)\<bar> \<le> u * \<bar>a - b\<bar>"
  unfolding standard_model_def by blast

lemma model_pow:
  "standard_model A val u \<Longrightarrow> val x = Some a \<Longrightarrow> val y = Some 2 \<Longrightarrow> 0 \<le> a \<Longrightarrow>
     a = 0 \<or> normal (a\<^sup>2) \<Longrightarrow>
     \<exists>r. val (d_pow A x y) = Some r \<and> \<bar>r - a\<^sup>2\<bar> \<le> u * a\<^sup>2"
  unfolding standard_model_def by blast

lemma approx_pos:
  fixes u x r :: real
  assumes "0 \<le> u" "u \<le> 1 / 2" "0 < x" "\<bar>r - x\<bar> \<le> u * \<bar>x\<bar>"
  shows "(1 - u) * x \<le> r \<and> r \<le> (1 + u) * x \<and> x / 2 \<le> r \<and> r \<le> 2 * x \<and> 0 < r"
proof -
  have ux: "u * x \<le> x / 2"
    using mult_right_mono [of u "1 / 2" x] assms by simp
  have ux0: "0 \<le> u * x" using assms by simp
  have lo: "x - u * x \<le> r" and hi: "r \<le> x + u * x"
    using assms by (simp_all add: abs_le_iff)
  have 1: "(1 - u) * x \<le> r" using lo by (simp add: algebra_simps)
  have 2: "r \<le> (1 + u) * x" using hi by (simp add: algebra_simps)
  have 3: "x / 2 \<le> r" using lo ux by linarith
  have 4: "r \<le> 2 * x" using hi ux \<open>0 < x\<close> by linarith
  have 5: "0 < r" using 3 \<open>0 < x\<close> by linarith
  from 1 2 3 4 5 show ?thesis by blast
qed

lemma square_val:
  assumes m: "standard_model A val u" and n: "n < 2 ^ 32"
  shows "\<exists>p. val (d_pow A (d_of_uint A n) (d_lit A 2)) = Some p \<and>
           \<bar>p - (real n)\<^sup>2\<bar> \<le> u * (real n)\<^sup>2"
proof (rule model_pow [OF m model_of_uint [OF m n] model_two [OF m]])
  show "0 \<le> real n" by simp
  show "real n = 0 \<or> normal ((real n)\<^sup>2)"
  proof (cases "n = 0")
    case True
    then show ?thesis by simp
  next
    case False
    then have "1 \<le> real n" by simp
    then have lo: "1 \<le> (real n)\<^sup>2" by (simp add: one_le_power)
    from n have "real n \<le> 2 ^ 32" by (metis less_imp_le of_nat_le_iff of_nat_numeral of_nat_power)
    then have "(real n)\<^sup>2 \<le> (2 ^ 32)\<^sup>2" by (intro power_mono) simp_all
    then have hi: "(real n)\<^sup>2 \<le> 2 ^ 200" by simp
    from lo hi show ?thesis by (intro disjI2 normalI) simp_all
  qed
qed

lemma inverse_val:
  assumes m: "standard_model A val u" and u: "0 \<le> u" "u \<le> 1 / 2"
    and n: "0 < n" "n < 2 ^ 32"
  shows "\<exists>p q. val (d_div A (d_lit A 1) (d_pow A (d_of_uint A n) (d_lit A 2))) = Some q \<and>
           \<bar>p - (real n)\<^sup>2\<bar> \<le> u * (real n)\<^sup>2 \<and> 0 < p \<and> \<bar>q - 1 / p\<bar> \<le> u * (1 / p)"
proof -
  from square_val [OF m n(2)] obtain p
    where p: "val (d_pow A (d_of_uint A n) (d_lit A 2)) = Some p"
      and pa: "\<bar>p - (real n)\<^sup>2\<bar> \<le> u * (real n)\<^sup>2" by blast
  from n have n1: "1 \<le> real n" by simp
  then have lo: "1 \<le> (real n)\<^sup>2" by (simp add: one_le_power)
  from n have "real n \<le> 2 ^ 32" by (metis less_imp_le of_nat_le_iff of_nat_numeral of_nat_power)
  then have "(real n)\<^sup>2 \<le> (2 ^ 32)\<^sup>2" by (intro power_mono) simp_all
  then have hi: "(real n)\<^sup>2 \<le> 2 ^ 64" by simp
  from lo have pos: "0 < (real n)\<^sup>2" by linarith
  from pa have "\<bar>p - (real n)\<^sup>2\<bar> \<le> u * \<bar>(real n)\<^sup>2\<bar>" by simp
  from approx_pos [OF u pos this]
  have pb: "(real n)\<^sup>2 / 2 \<le> p" "p \<le> 2 * (real n)\<^sup>2" "0 < p" by simp_all
  with lo hi have p1: "1 / 2 \<le> p" and p2: "p \<le> 2 ^ 65" by simp_all
  from p1 have i2: "1 / p \<le> 2" using \<open>0 < p\<close> by (simp add: field_simps)
  from p2 have i1: "1 / 2 ^ 65 \<le> 1 / p" using \<open>0 < p\<close> by (simp add: frac_le)
  have "(1::real) / 2 ^ 200 \<le> 1 / 2 ^ 65" by simp
  with i1 have "1 / 2 ^ 200 \<le> 1 / p" by linarith
  moreover from i2 have "1 / p \<le> 2 ^ 200" by simp
  ultimately have "normal (1 / p)" by (rule normalI)
  with model_div [OF m model_one [OF m] p, of ] \<open>0 < p\<close>
  obtain q where "val (d_div A (d_lit A 1) (d_pow A (d_of_uint A n) (d_lit A 2))) = Some q"
    and "\<bar>q - 1 / p\<bar> \<le> u * \<bar>1 / p\<bar>" by auto
  with pa \<open>0 < p\<close> show ?thesis by auto
qed

lemma rydberg_val:
  assumes m: "standard_model A val u" and u: "0 \<le> u" "u \<le> 1 / 2"
  shows "\<exists>r. val (RYDBERG_CONSTANT A) = Some r \<and> 6 \<le> r \<and> r \<le> 28"
proof -
  have "normal 13.60569300984" by (rule normalI) simp_all
  from model_lit [OF m this] obtain r where r: "val (d_lit A 13.60569300984) = Some r"
    and "\<bar>r - 13.60569300984\<bar> \<le> u * \<bar>13.60569300984\<bar>" by blast
  from approx_pos [OF u _ this(2)] have "6 \<le> r" "r \<le> 28" by simp_all
  with r show ?thesis by (simp add: RYDBERG_CONSTANT_def)
qed

lemma scale_val:
  assumes m: "standard_model A val u" and u: "0 \<le> u" "u \<le> 1 / 2" and z: "z < 2 ^ 32"
  shows "\<exists>s. val (d_mul A (RYDBERG_CONSTANT A) (d_pow A (d_of_uint A z) (d_lit A 2))) = Some s \<and>
           (0 < z \<longrightarrow> 1 \<le> s \<and> s \<le> 2 ^ 72)"
proof -
  from rydberg_val [OF m u] obtain r where r: "val (RYDBERG_CONSTANT A) = Some r"
    and rb: "6 \<le> r" "r \<le> 28" by blast
  from square_val [OF m z] obtain p
    where p: "val (d_pow A (d_of_uint A z) (d_lit A 2)) = Some p"
      and pa: "\<bar>p - (real z)\<^sup>2\<bar> \<le> u * (real z)\<^sup>2" by blast
  show ?thesis
  proof (cases "z = 0")
    case True
    with pa have "p = 0" by simp
    then have "r * p = 0 \<or> normal (r * p)" by simp
    from model_mul [OF m r p this] True show ?thesis by auto
  next
    case False
    then have n1: "1 \<le> real z" by simp
    then have lo: "1 \<le> (real z)\<^sup>2" by (simp add: one_le_power)
    from z have "real z \<le> 2 ^ 32" by (metis less_imp_le of_nat_le_iff of_nat_numeral of_nat_power)
    then have "(real z)\<^sup>2 \<le> (2 ^ 32)\<^sup>2" by (intro power_mono) simp_all
    then have hi: "(real z)\<^sup>2 \<le> 2 ^ 64" by simp
    from lo have pos: "0 < (real z)\<^sup>2" by linarith
    from pa have "\<bar>p - (real z)\<^sup>2\<bar> \<le> u * \<bar>(real z)\<^sup>2\<bar>" by simp
    from approx_pos [OF u pos this] lo hi
    have pb: "1 / 2 \<le> p" "p \<le> 2 ^ 65" by simp_all
    have l: "6 * (1 / 2) \<le> r * p" using rb pb by (intro mult_mono) simp_all
    have h: "r * p \<le> 28 * 2 ^ 65" using rb pb by (intro mult_mono) simp_all
    have rp: "0 < r * p" using l by simp
    have "normal (r * p)" using l h by (intro normalI) simp_all
    then have "r * p = 0 \<or> normal (r * p)" by simp
    from model_mul [OF m r p this] obtain s
      where s: "val (d_mul A (RYDBERG_CONSTANT A) (d_pow A (d_of_uint A z) (d_lit A 2))) = Some s"
        and "\<bar>s - r * p\<bar> \<le> u * \<bar>r * p\<bar>" by blast
    from approx_pos [OF u rp this(2)] l h have "3 / 2 \<le> s" "s \<le> 2 ^ 72" by simp_all
    with s show ?thesis by auto
  qed
qed

lemma real_unat_bound: "real (unat (n :: c_uint)) \<le> 2 ^ 32 - 1"
proof -
  have "unat n < 2 ^ 32" using unsigned_less [of n] by simp
  then have "unat n \<le> 2 ^ 32 - 1" by simp
  then have "real (unat n) \<le> real (2 ^ 32 - 1)" by (simp only: of_nat_le_iff)
  then show ?thesis by simp
qed

lemma equal_levels_zero:
  assumes m: "standard_model A val u" and u: "0 \<le> u" "u \<le> 1 / 2"
    and n: "0 < unat n"
  shows "val (calculateBohrEnergy A Z n n eType) = Some 0"
proof -
  have lt: "unat n < 2 ^ 32" "unat Z < 2 ^ 32"
    using unsigned_less [of n] unsigned_less [of Z] by simp_all
  from inverse_val [OF m u n lt(1)] obtain q
    where q: "val (d_div A (d_lit A 1) (d_pow A (d_of_uint A (unat n)) (d_lit A 2))) = Some q"
    by blast
  have "\<bar>q - q\<bar> \<le> huge" using huge_ge by simp
  from model_sub [OF m q q this] obtain d
    where d: "val (d_sub A (d_div A (d_lit A 1) (d_pow A (d_of_uint A (unat n)) (d_lit A 2)))
                  (d_div A (d_lit A 1) (d_pow A (d_of_uint A (unat n)) (d_lit A 2)))) = Some d"
      and "\<bar>d - (q - q)\<bar> \<le> u * \<bar>q - q\<bar>" by blast
  then have d0: "d = 0" by simp
  from scale_val [OF m u lt(2)] obtain s
    where s: "val (d_mul A (RYDBERG_CONSTANT A) (d_pow A (d_of_uint A (unat Z)) (d_lit A 2))) = Some s"
    by blast
  have "s * d = 0 \<or> normal (s * d)" using d0 by simp
  from model_mul [OF m s d this] d0 obtain e
    where e: "val (d_mul A (d_mul A (RYDBERG_CONSTANT A) (d_pow A (d_of_uint A (unat Z)) (d_lit A 2)))
               (d_sub A (d_div A (d_lit A 1) (d_pow A (d_of_uint A (unat n)) (d_lit A 2)))
                  (d_div A (d_lit A 1) (d_pow A (d_of_uint A (unat n)) (d_lit A 2))))) = Some e"
      and e0: "e = 0" by auto
  have "normal (1.6 / 10 ^ 19)" by (rule normalI) simp_all
  from model_lit [OF m this] obtain c where c: "val (EV_TO_JOULES A) = Some c"
    unfolding EV_TO_JOULES_def by blast
  have "e * c = 0 \<or> normal (e * c)" using e0 by simp
  from model_mul [OF m e c this] e0 obtain j
    where "val (d_mul A (d_mul A (d_mul A (RYDBERG_CONSTANT A) (d_pow A (d_of_uint A (unat Z)) (d_lit A 2)))
               (d_sub A (d_div A (d_lit A 1) (d_pow A (d_of_uint A (unat n)) (d_lit A 2)))
                  (d_div A (d_lit A 1) (d_pow A (d_of_uint A (unat n)) (d_lit A 2))))) (EV_TO_JOULES A)) = Some j"
      and "j = 0" by auto
  with e e0 show ?thesis by (simp add: calculateBohrEnergy_def Let_def)
qed


text \<open>
  C5.  For Z \<ge> 1 and levels n1 > n2 \<ge> 1 the result in electron-volts is strictly
  positive: a finite double with a positive value, in every arithmetic that satisfies the
  standard model with a relative error of at most \<open>2\<^sup>-\<^sup>3\<^sup>4\<close> per operation.
\<close>

theorem calculateBohrEnergy_positive:
  assumes m: "standard_model A val u" and u0: "0 \<le> u" and u34: "u \<le> 1 / 2 ^ 34"
    and z: "1 \<le> unat Z" and f: "1 \<le> unat nFinal" and lt: "unat nFinal < unat nInitial"
  shows "\<exists>e. val (calculateBohrEnergy A Z nInitial nFinal ELECTRON_VOLT) = Some e \<and> 0 < e"
proof -
  define a where "a = real (unat nFinal)"
  define b where "b = real (unat nInitial)"
  have u: "0 \<le> u" "u \<le> 1 / 2" using u0 u34 by simp_all
  have "real 1 \<le> real (unat nFinal)" using f by (simp only: of_nat_le_iff)
  then have a1: "1 \<le> a" by (simp add: a_def)
  have "unat nFinal + 1 \<le> unat nInitial" using lt by simp
  then have "real (unat nFinal + 1) \<le> real (unat nInitial)" by (simp only: of_nat_le_iff)
  then have ab: "a + 1 \<le> b" by (simp add: a_def b_def)
  have ah: "a \<le> 2 ^ 32 - 1" unfolding a_def by (rule real_unat_bound)
  have bh: "b \<le> 2 ^ 32 - 1" unfolding b_def by (rule real_unat_bound)
  have b1: "1 \<le> b" using a1 ab by linarith
  have lts: "unat nFinal < 2 ^ 32" "unat nInitial < 2 ^ 32" "unat Z < 2 ^ 32"
    using unsigned_less [of nFinal] unsigned_less [of nInitial] unsigned_less [of Z] by simp_all
  have pos: "0 < unat nFinal" "0 < unat nInitial" "0 < unat Z" using f lt z by simp_all
  from inverse_val [OF m u pos(1) lts(1)] obtain p2 q2
    where q2: "val (d_div A (d_lit A 1) (d_pow A (d_of_uint A (unat nFinal)) (d_lit A 2))) = Some q2"
      and p2a: "\<bar>p2 - a\<^sup>2\<bar> \<le> u * a\<^sup>2" and p2p: "0 < p2" and q2a: "\<bar>q2 - 1 / p2\<bar> \<le> u * (1 / p2)"
    unfolding a_def by blast
  from inverse_val [OF m u pos(2) lts(2)] obtain p1 q1
    where q1: "val (d_div A (d_lit A 1) (d_pow A (d_of_uint A (unat nInitial)) (d_lit A 2))) = Some q1"
      and p1a: "\<bar>p1 - b\<^sup>2\<bar> \<le> u * b\<^sup>2" and p1p: "0 < p1" and q1a: "\<bar>q1 - 1 / p1\<bar> \<le> u * (1 / p1)"
    unfolding b_def by blast
  have a2p: "0 < a\<^sup>2" and b2p: "0 < b\<^sup>2" using a1 b1 by simp_all
  have a2h: "a\<^sup>2 \<le> 2 ^ 64" and b2h: "b\<^sup>2 \<le> 2 ^ 64"
    using power_mono [of a "2 ^ 32" 2] power_mono [of b "2 ^ 32" 2] a1 b1 ah bh by simp_all
  have a2l: "1 \<le> a\<^sup>2" using a1 by (simp add: one_le_power)
  from p2a have "\<bar>p2 - a\<^sup>2\<bar> \<le> u * \<bar>a\<^sup>2\<bar>" by simp
  from approx_pos [OF u a2p this]
  have p2b: "p2 \<le> (1 + u) * a\<^sup>2" "a\<^sup>2 / 2 \<le> p2" "p2 \<le> 2 * a\<^sup>2" by simp_all
  from p1a have "\<bar>p1 - b\<^sup>2\<bar> \<le> u * \<bar>b\<^sup>2\<bar>" by simp
  from approx_pos [OF u b2p this]
  have p1b: "(1 - u) * b\<^sup>2 \<le> p1" "p1 \<le> 2 * b\<^sup>2" by simp_all
  have ip2: "0 < 1 / p2" and ip1: "0 < 1 / p1" using p2p p1p by simp_all
  from q2a ip2 have "\<bar>q2 - 1 / p2\<bar> \<le> u * \<bar>1 / p2\<bar>" by simp
  from approx_pos [OF u ip2 this]
  have q2b: "(1 - u) * (1 / p2) \<le> q2" "q2 \<le> 2 * (1 / p2)" "0 < q2" by simp_all
  from q1a ip1 have "\<bar>q1 - 1 / p1\<bar> \<le> u * \<bar>1 / p1\<bar>" by simp
  from approx_pos [OF u ip1 this]
  have q1b: "q1 \<le> (1 + u) * (1 / p1)" "0 < q1" by simp_all
  \<comment> \<open>the squares stay apart after rounding\<close>
  define s where "s = (1 + u) * a"
  define t where "t = (1 - u) * b"
  have "u * (2 * a + 1) \<le> 1 / 2 ^ 34 * 2 ^ 33"
    using u0 u34 a1 ah by (intro mult_mono) simp_all
  then have ua: "u * (2 * a + 1) \<le> 1 / 2" by simp
  have "(1 - u) * (a + 1) \<le> t"
    unfolding t_def using ab u by (intro mult_left_mono) simp_all
  with ua have st: "s + 1 / 2 \<le> t" unfolding s_def by (simp add: algebra_simps)
  have "0 \<le> u * a" using u0 a1 by simp
  then have s1: "1 \<le> s" unfolding s_def using a1 by (simp add: algebra_simps)
  have "(s + 1 / 2)\<^sup>2 \<le> t\<^sup>2" using st s1 by (intro power_mono) simp_all
  moreover have "(s + 1 / 2)\<^sup>2 = s\<^sup>2 + s + 1 / 4"
    by (simp add: power2_eq_square algebra_simps)
  ultimately have ts: "s\<^sup>2 + 1 \<le> t\<^sup>2" using s1 by linarith
  have "(1 + u) * p2 \<le> (1 + u) * ((1 + u) * a\<^sup>2)"
    using p2b(1) u0 by (intro mult_left_mono) simp_all
  then have p2s: "(1 + u) * p2 \<le> s\<^sup>2" unfolding s_def by (simp add: power2_eq_square algebra_simps)
  have "(1 - u) * ((1 - u) * b\<^sup>2) \<le> (1 - u) * p1"
    using p1b(1) u by (intro mult_left_mono) simp_all
  then have p1t: "t\<^sup>2 \<le> (1 - u) * p1" unfolding t_def by (simp add: power2_eq_square algebra_simps)
  have D: "1 \<le> (1 - u) * p1 - (1 + u) * p2" using ts p2s p1t by linarith
  \<comment> \<open>so do the reciprocals\<close>
  have pp: "0 < p1 * p2" using p1p p2p by simp
  have "p1 * p2 \<le> (2 * b\<^sup>2) * (2 * a\<^sup>2)"
    using p1b(2) p2b(3) p1p p2p a2p b2p by (intro mult_mono) simp_all
  also have "\<dots> \<le> (2 * 2 ^ 64) * (2 * 2 ^ 64)"
    using a2h b2h a2p b2p by (intro mult_mono) simp_all
  finally have pph: "p1 * p2 \<le> 2 ^ 130" by simp
  have "(1 - u) * (1 / p2) - (1 + u) * (1 / p1) = ((1 - u) * p1 - (1 + u) * p2) / (p1 * p2)"
    using p1p p2p by (simp add: field_simps)
  also have "\<dots> \<ge> 1 / (p1 * p2)" using D pp by (intro divide_right_mono) simp_all
  finally have "1 / (p1 * p2) \<le> q2 - q1" using q2b(1) q1b(1) by linarith
  moreover have "1 / 2 ^ 130 \<le> 1 / (p1 * p2)" using pph pp by (intro frac_le) simp_all
  ultimately have dl: "1 / 2 ^ 130 \<le> q2 - q1" by linarith
  have "1 / p2 \<le> 1 / (a\<^sup>2 / 2)" using p2b(2) a2p by (intro frac_le) simp_all
  also have "\<dots> \<le> 2" using a2l a2p by (simp add: field_simps)
  finally have "q2 \<le> 4" using q2b(2) by linarith
  then have dh: "q2 - q1 \<le> 4" using q1b(2) by linarith
  have "(0::real) < 1 / 2 ^ 130" by simp
  with dl have dpos: "0 < q2 - q1" by linarith
  have "\<bar>q2 - q1\<bar> \<le> huge" using dh dpos huge_ge by simp
  from model_sub [OF m q2 q1 this] obtain d
    where d: "val (d_sub A (d_div A (d_lit A 1) (d_pow A (d_of_uint A (unat nFinal)) (d_lit A 2)))
                  (d_div A (d_lit A 1) (d_pow A (d_of_uint A (unat nInitial)) (d_lit A 2)))) = Some d"
      and da: "\<bar>d - (q2 - q1)\<bar> \<le> u * \<bar>q2 - q1\<bar>" by blast
  from approx_pos [OF u dpos da] dl dh
  have db: "1 / 2 ^ 131 \<le> d" "d \<le> 8" "0 < d" by simp_all
  from scale_val [OF m u lts(3)] pos(3) obtain k
    where k: "val (d_mul A (RYDBERG_CONSTANT A) (d_pow A (d_of_uint A (unat Z)) (d_lit A 2))) = Some k"
      and kb: "1 \<le> k" "k \<le> 2 ^ 72" by blast
  have kl: "1 * (1 / 2 ^ 131) \<le> k * d" using kb db by (intro mult_mono) simp_all
  have kh: "k * d \<le> 2 ^ 72 * 8" using kb db by (intro mult_mono) simp_all
  have kd: "0 < k * d" using kb db by simp
  have "normal (k * d)" using kl kh by (intro normalI) simp_all
  then have "k * d = 0 \<or> normal (k * d)" by simp
  from model_mul [OF m k d this] obtain e
    where e: "val (d_mul A (d_mul A (RYDBERG_CONSTANT A) (d_pow A (d_of_uint A (unat Z)) (d_lit A 2)))
               (d_sub A (d_div A (d_lit A 1) (d_pow A (d_of_uint A (unat nFinal)) (d_lit A 2)))
                  (d_div A (d_lit A 1) (d_pow A (d_of_uint A (unat nInitial)) (d_lit A 2))))) = Some e"
      and ea: "\<bar>e - k * d\<bar> \<le> u * \<bar>k * d\<bar>" by blast
  from approx_pos [OF u kd ea] have "0 < e" by simp
  with e show ?thesis by (simp add: calculateBohrEnergy_def Let_def)
qed

theorem calculateBohrEnergy_positive_witness:
  "standard_model exact Some 0 \<and>
   calculateBohrEnergy exact 1 2 1 ELECTRON_VOLT = 10.20426975738 \<and>
   0 < calculateBohrEnergy exact 1 2 1 ELECTRON_VOLT"
proof -
  have v: "calculateBohrEnergy exact 1 2 1 ELECTRON_VOLT = 10.20426975738"
    by (simp add: calculateBohrEnergy_def RYDBERG_CONSTANT_def exact_def powr_numeral)
  from calculateBohrEnergy_positive [OF exact_standard_model, of 1 1 2]
  have "0 < calculateBohrEnergy exact 1 2 1 ELECTRON_VOLT" by simp
  with v exact_standard_model show ?thesis by blast
qed

text \<open>
  C9.  When the levels entered are equal (and at least 1, as \<open>getint(1)\<close> ensures), the
  ordering test passes: the pass asks for the unit, calls \<open>calculateBohrEnergy\<close> with
  these values and prints the result; and the result is exactly 0 in either unit, in
  every arithmetic that satisfies the standard model.
\<close>

theorem equal_levels_pass_and_give_zero:
  fixes A :: "'d double_ops" and o1 o2 o3 o4 :: "'d item list"
  assumes "standard_model A val u" and "0 \<le> u" and "u \<le> 1 / 2"
    and "getint 1 INT_MAX lines = Break Z lines1 o1"
    and "getint 1 INT_MAX lines1 = Break n lines2 o2"
    and "getint 1 INT_MAX lines2 = Break n lines3 o3"
    and "getEnergyType lines3 = Break eType lines4 o4"
  shows "fst (snd (iteration A lines)) = [(Z, n, n, eType)] \<and>
         Str ask_unit \<in> set (fst (iteration A lines)) \<and>
         Dbl (calculateBohrEnergy A Z n n eType) \<in> set (fst (iteration A lines)) \<and>
         val (calculateBohrEnergy A Z n n ELECTRON_VOLT) = Some 0 \<and>
         val (calculateBohrEnergy A Z n n JOULES) = Some 0"
proof -
  from getint_1_positive [OF assms(5)] have "0 < unat n" by (simp add: positive_int_def)
  from equal_levels_zero [OF assms(1-3) this]
  have "val (calculateBohrEnergy A Z n n ELECTRON_VOLT) = Some 0"
    and "val (calculateBohrEnergy A Z n n JOULES) = Some 0" by simp_all
  moreover have "iteration A lines =
      (case getBool lines4 of
         Eof v o5 \<Rightarrow>
           (Str ask_Z # o1 @ Str ask_nInitial # o2 @ Str ask_nFinal # o3 @ Str ask_unit # o4 @
              report Z n n eType (calculateBohrEnergy A Z n n eType) @ [Str ask_continue] @ o5,
            [(Z, n, n, eType)], Input_Ended)
       | Break shouldContinue lines5 o5 \<Rightarrow>
           (Str ask_Z # o1 @ Str ask_nInitial # o2 @ Str ask_nFinal # o3 @ Str ask_unit # o4 @
              report Z n n eType (calculateBohrEnergy A Z n n eType) @ [Str ask_continue] @ o5,
            [(Z, n, n, eType)], if shouldContinue then Again lines5 else Exit))"
    unfolding iteration_def by (simp add: assms(4-7) Let_def split: reader.splits)
  then have "fst (snd (iteration A lines)) = [(Z, n, n, eType)]"
    and "Str ask_unit \<in> set (fst (iteration A lines))"
    and "Dbl (calculateBohrEnergy A Z n n eType) \<in> set (fst (iteration A lines))"
    by (simp_all add: report_def split: reader.splits)
  ultimately show ?thesis by blast
qed

theorem equal_levels_pass_and_give_zero_witness:
  "standard_model exact Some 0 \<and>
   fst (snd (iteration exact [''1'', ''2'', ''2'', ''e'', ''n''])) = [(1, 2, 2, ELECTRON_VOLT)] \<and>
   calculateBohrEnergy exact 1 2 2 ELECTRON_VOLT = 0 \<and>
   calculateBohrEnergy exact 1 2 2 JOULES = 0"
proof -
  have 1: "getint 1 INT_MAX [''1'', ''2'', ''2'', ''e'', ''n''] =
             (Break 1 [''2'', ''2'', ''e'', ''n''] [] :: (c_int, real) reader)"
    by (simp add: stream_defs)
  have 2: "getint 1 INT_MAX [''2'', ''2'', ''e'', ''n''] =
             (Break 2 [''2'', ''e'', ''n''] [] :: (c_int, real) reader)"
    by (simp add: stream_defs)
  have 3: "getint 1 INT_MAX [''2'', ''e'', ''n''] =
             (Break 2 [''e'', ''n''] [] :: (c_int, real) reader)"
    by (simp add: stream_defs)
  have 4: "getEnergyType [''e'', ''n''] = (Break ELECTRON_VOLT [''n''] [] :: (EnergyType, real) reader)"
    by code_simp
  from equal_levels_pass_and_give_zero [OF exact_standard_model _ _ 1 2 3 4]
  show ?thesis using exact_standard_model by simp
qed

end
